theory Spec2Isabelle
  imports Main "HOL-Library.Word"
begin

unbundle bit_operations_syntax

section \<open>Data model\<close>

text \<open>
  Go's \<open>byte\<close>/\<open>uint8\<close> is an 8-bit word, \<open>uint16\<close> and \<open>int16\<close> are 16-bit words.
  On 16-bit words \<open>+\<close> and \<open>*\<close> wrap around as in Go. The two Go types differ in the
  right shift only: \<open>>>\<close> on \<open>uint16\<close> is \<open>drop_bit\<close>, on \<open>int16\<close> it is the
  arithmetic \<open>signed_drop_bit\<close>. The conversion \<open>int16(b)\<close> of a byte is a zero
  extension (\<open>ucast\<close>), \<open>byte(x)\<close> keeps the low eight bits (\<open>ucast\<close>), and
  \<open>uint16(x)\<close> of an \<open>int16\<close> keeps all sixteen bits.
\<close>

type_synonym byte = "8 word"
type_synonym uint16 = "16 word"
type_synonym int16 = "16 word"

text \<open>The values an \<open>error\<close> of the Go code can hold: a \<open>syscall.Errno\<close>, or one
  of the errors \<open>os.File\<close> reports.\<close>

datatype error = Errno nat | PathError string nat | EOF | ErrShortWrite

text \<open>
  The calls that reach the operating system, as a test double for the descriptor would
  record them: the descriptor they go to and their payload (for a read, the length of
  the buffer handed in).
\<close>

datatype call =
    SysOpen string
  | SysIoctl nat nat nat
  | SysWrite nat "byte list"
  | SysRead nat nat
  | SysClose nat

text \<open>
  The host is everything outside the package: the kernel behind \<open>os.File\<close> and
  \<open>syscall\<close>, and the allocation limit of the Go runtime. Its answer to a call may
  depend on all calls made before, so each answer is a function of the recorded history.
  \<^item> \<open>open_reply\<close>: the descriptor of the opened node, or the error.
  \<^item> \<open>ioctl_reply\<close>: the errno of the request, 0 for success.
  \<^item> \<open>write_reply\<close>: what \<open>File.Write\<close> returns, the count and the error.
  \<^item> \<open>read_reply\<close>: the bytes the device supplies and the error of \<open>File.Read\<close>.
  \<^item> \<open>close_reply\<close>: the error of \<open>File.Close\<close>.
  \<^item> \<open>max_alloc\<close>: the largest length \<open>make([]byte, n)\<close> accepts.
\<close>

record host =
  open_reply :: "call list \<Rightarrow> string \<Rightarrow> error + nat"
  ioctl_reply :: "call list \<Rightarrow> nat \<Rightarrow> nat \<Rightarrow> nat \<Rightarrow> nat"
  write_reply :: "call list \<Rightarrow> nat \<Rightarrow> byte list \<Rightarrow> nat \<times> error option"
  read_reply :: "call list \<Rightarrow> nat \<Rightarrow> nat \<Rightarrow> byte list \<times> error option"
  close_reply :: "call list \<Rightarrow> nat \<Rightarrow> error option"
  max_alloc :: nat

text \<open>
  The handle \<open>I2C\<close>: the descriptor \<open>rc\<close>. The logger field is left out: the
  \<open>Debugf\<close> traces reach neither the bus nor any returned value.
\<close>

record I2C =
  rc :: nat

text \<open>A Go call either returns its results or panics.\<close>

datatype 'a outcome = Panic | Return 'a

section \<open>Construction\<close>

definition i2cSlave :: nat where
  "i2cSlave = 0x0703"

text \<open>\<open>fmt.Sprintf("%d", bus)\<close>: the decimal digits, with a minus sign when negative.\<close>

fun decimal :: "nat \<Rightarrow> string" where
  "decimal n = (if n < 10 then [''0123456789'' ! n]
                else decimal (n div 10) @ [''0123456789'' ! (n mod 10)])"

declare decimal.simps [simp del]

definition sprintf_d :: "int \<Rightarrow> string" where
  "sprintf_d i = (if i < 0 then CHR ''-'' # decimal (nat (- i)) else decimal (nat i))"

definition ioctl :: "host \<Rightarrow> nat \<Rightarrow> nat \<Rightarrow> nat \<Rightarrow> call list \<Rightarrow> error option \<times> call list" where
  "ioctl h fd cmd arg tr =
     (let err = ioctl_reply h tr fd cmd arg;
          tr1 = tr @ [SysIoctl fd cmd arg]
      in if err \<noteq> 0 then (Some (Errno err), tr1) else (None, tr1))"

definition NewI2C ::
  "host \<Rightarrow> byte \<Rightarrow> int \<Rightarrow> call list \<Rightarrow> (I2C option \<times> error option) \<times> call list" where
  "NewI2C h addr bus tr =
     (let path = ''/dev/i2c-'' @ sprintf_d bus;
          tr1 = tr @ [SysOpen path]
      in case open_reply h tr path of
           Inl err \<Rightarrow> ((None, Some err), tr1)
         | Inr f \<Rightarrow>
             (case ioctl h f i2cSlave (unat addr) tr1 of
                (Some err, tr2) \<Rightarrow> ((None, Some err), tr2)
              | (None, tr2) \<Rightarrow> ((Some \<lparr>rc = f\<rparr>, None), tr2)))"

section \<open>Byte-stream read and write\<close>

text \<open>The unexported methods \<open>write\<close> and \<open>read\<close> of the handle are
  \<open>write_i2c\<close> and \<open>read_i2c\<close> here.\<close>

definition write_i2c ::
  "host \<Rightarrow> I2C \<Rightarrow> byte list \<Rightarrow> call list \<Rightarrow> (nat \<times> error option) \<times> call list" where
  "write_i2c h v buf tr = (write_reply h tr (rc v) buf, tr @ [SysWrite (rc v) buf])"

definition WriteBytes ::
  "host \<Rightarrow> I2C \<Rightarrow> byte list \<Rightarrow> call list \<Rightarrow> (nat \<times> error option) \<times> call list" where
  "WriteBytes h v buf tr = write_i2c h v buf tr"

text \<open>
  \<open>File.Read\<close> fills the front of the caller's buffer in place and returns the count;
  the model returns the buffer after the call beside the count. Bytes past the length
  of the buffer are never stored. For an empty buffer \<open>File.Read\<close> returns count 0
  and no error at once: no read reaches the descriptor.
\<close>

definition read_i2c ::
  "host \<Rightarrow> I2C \<Rightarrow> byte list \<Rightarrow> call list
     \<Rightarrow> (byte list \<times> nat \<times> error option) \<times> call list" where
  "read_i2c h v buf tr =
     (if buf = [] then ((buf, 0, None), tr)
      else
        let (supplied, err) = read_reply h tr (rc v) (length buf);
            got = take (length buf) supplied
        in ((got @ drop (length got) buf, length got, err),
            tr @ [SysRead (rc v) (length buf)]))"

definition ReadBytes ::
  "host \<Rightarrow> I2C \<Rightarrow> byte list \<Rightarrow> call list
     \<Rightarrow> (byte list \<times> nat \<times> error option) \<times> call list" where
  "ReadBytes h v buf tr =
     (case read_i2c h v buf tr of
        ((buf1, n, Some err), tr1) \<Rightarrow> ((buf1, n, Some err), tr1)
      | ((buf1, n, None), tr1) \<Rightarrow> ((buf1, n, None), tr1))"

definition Close :: "host \<Rightarrow> I2C \<Rightarrow> call list \<Rightarrow> error option \<times> call list" where
  "Close h v tr = (close_reply h tr (rc v), tr @ [SysClose (rc v)])"

section \<open>Register operations\<close>

text \<open>\<open>make([]byte, n)\<close>: a zeroed buffer, or a panic when the length is negative or
  beyond what the runtime allocates.\<close>

definition make_bytes :: "host \<Rightarrow> int \<Rightarrow> byte list option" where
  "make_bytes h n = (if n < 0 \<or> int (max_alloc h) < n then None
                     else Some (replicate (nat n) 0))"

text \<open>A \<open>nil\<close> slice is the empty list.\<close>

definition ReadRegBytes ::
  "host \<Rightarrow> I2C \<Rightarrow> byte \<Rightarrow> int \<Rightarrow> call list
     \<Rightarrow> (byte list \<times> nat \<times> error option) outcome \<times> call list" where
  "ReadRegBytes h v reg n tr =
     (case WriteBytes h v [reg] tr of
        ((_, Some err), tr1) \<Rightarrow> (Return ([], 0, Some err), tr1)
      | ((_, None), tr1) \<Rightarrow>
          (case make_bytes h n of
             None \<Rightarrow> (Panic, tr1)
           | Some buf \<Rightarrow>
               (case ReadBytes h v buf tr1 of
                  ((_, _, Some err), tr2) \<Rightarrow> (Return ([], 0, Some err), tr2)
                | ((buf1, c, None), tr2) \<Rightarrow> (Return (buf1, c, None), tr2))))"

definition ReadRegU8 ::
  "host \<Rightarrow> I2C \<Rightarrow> byte \<Rightarrow> call list \<Rightarrow> (byte \<times> error option) \<times> call list" where
  "ReadRegU8 h v reg tr =
     (case WriteBytes h v [reg] tr of
        ((_, Some err), tr1) \<Rightarrow> ((0, Some err), tr1)
      | ((_, None), tr1) \<Rightarrow>
          (case ReadBytes h v (replicate 1 0) tr1 of
             ((_, _, Some err), tr2) \<Rightarrow> ((0, Some err), tr2)
           | ((buf, _, None), tr2) \<Rightarrow> ((buf ! 0, None), tr2)))"

definition WriteRegU8 ::
  "host \<Rightarrow> I2C \<Rightarrow> byte \<Rightarrow> byte \<Rightarrow> call list \<Rightarrow> error option \<times> call list" where
  "WriteRegU8 h v reg val tr =
     (case WriteBytes h v [reg, val] tr of
        ((_, Some err), tr1) \<Rightarrow> (Some err, tr1)
      | ((_, None), tr1) \<Rightarrow> (None, tr1))"

definition ReadRegU16BE ::
  "host \<Rightarrow> I2C \<Rightarrow> byte \<Rightarrow> call list \<Rightarrow> (uint16 \<times> error option) \<times> call list" where
  "ReadRegU16BE h v reg tr =
     (case WriteBytes h v [reg] tr of
        ((_, Some err), tr1) \<Rightarrow> ((0, Some err), tr1)
      | ((_, None), tr1) \<Rightarrow>
          (case ReadBytes h v (replicate 2 0) tr1 of
             ((_, _, Some err), tr2) \<Rightarrow> ((0, Some err), tr2)
           | ((buf, _, None), tr2) \<Rightarrow>
               ((push_bit 8 (ucast (buf ! 0)) + ucast (buf ! 1), None), tr2)))"

text \<open>The line under the comment \<open>exchange bytes\<close> of \<open>ReadRegU16LE\<close>:
  \<open>(w&0xFF)<<8 + w>>8\<close>, where the shifts and the mask bind tighter than \<open>+\<close>.\<close>

definition exchange_bytes_u16 :: "uint16 \<Rightarrow> uint16" where
  "exchange_bytes_u16 w = push_bit 8 (w AND 0xFF) + drop_bit 8 w"

definition ReadRegU16LE ::
  "host \<Rightarrow> I2C \<Rightarrow> byte \<Rightarrow> call list \<Rightarrow> (uint16 \<times> error option) \<times> call list" where
  "ReadRegU16LE h v reg tr =
     (case ReadRegU16BE h v reg tr of
        ((_, Some err), tr1) \<Rightarrow> ((0, Some err), tr1)
      | ((w, None), tr1) \<Rightarrow> ((exchange_bytes_u16 w, None), tr1))"

definition ReadRegS16BE ::
  "host \<Rightarrow> I2C \<Rightarrow> byte \<Rightarrow> call list \<Rightarrow> (int16 \<times> error option) \<times> call list" where
  "ReadRegS16BE h v reg tr =
     (case WriteBytes h v [reg] tr of
        ((_, Some err), tr1) \<Rightarrow> ((0, Some err), tr1)
      | ((_, None), tr1) \<Rightarrow>
          (case ReadBytes h v (replicate 2 0) tr1 of
             ((_, _, Some err), tr2) \<Rightarrow> ((0, Some err), tr2)
           | ((buf, _, None), tr2) \<Rightarrow>
               ((push_bit 8 (ucast (buf ! 0)) + ucast (buf ! 1), None), tr2)))"

text \<open>The same line in \<open>ReadRegS16LE\<close>, on \<open>int16\<close>: the right shift is arithmetic.\<close>

definition exchange_bytes_s16 :: "int16 \<Rightarrow> int16" where
  "exchange_bytes_s16 w = push_bit 8 (w AND 0xFF) + signed_drop_bit 8 w"

definition ReadRegS16LE ::
  "host \<Rightarrow> I2C \<Rightarrow> byte \<Rightarrow> call list \<Rightarrow> (int16 \<times> error option) \<times> call list" where
  "ReadRegS16LE h v reg tr =
     (case ReadRegS16BE h v reg tr of
        ((_, Some err), tr1) \<Rightarrow> ((0, Some err), tr1)
      | ((w, None), tr1) \<Rightarrow> ((exchange_bytes_s16 w, None), tr1))"

definition WriteRegU16BE ::
  "host \<Rightarrow> I2C \<Rightarrow> byte \<Rightarrow> uint16 \<Rightarrow> call list \<Rightarrow> error option \<times> call list" where
  "WriteRegU16BE h v reg val tr =
     (let buf = [reg, ucast (drop_bit 8 (val AND 0xFF00)), ucast (val AND 0xFF)]
      in case WriteBytes h v buf tr of
           ((_, Some err), tr1) \<Rightarrow> (Some err, tr1)
         | ((_, None), tr1) \<Rightarrow> (None, tr1))"

definition WriteRegU16LE ::
  "host \<Rightarrow> I2C \<Rightarrow> byte \<Rightarrow> uint16 \<Rightarrow> call list \<Rightarrow> error option \<times> call list" where
  "WriteRegU16LE h v reg val tr =
     (let w = drop_bit 8 (val * 0xFF00) + push_bit 8 val
      in WriteRegU16BE h v reg w tr)"

definition WriteRegS16BE ::
  "host \<Rightarrow> I2C \<Rightarrow> byte \<Rightarrow> int16 \<Rightarrow> call list \<Rightarrow> error option \<times> call list" where
  "WriteRegS16BE h v reg val tr =
     (let buf = [reg, ucast (drop_bit 8 (val AND 0xFF00)), ucast (val AND 0xFF)]
      in case WriteBytes h v buf tr of
           ((_, Some err), tr1) \<Rightarrow> (Some err, tr1)
         | ((_, None), tr1) \<Rightarrow> (None, tr1))"

definition WriteRegS16LE ::
  "host \<Rightarrow> I2C \<Rightarrow> byte \<Rightarrow> int16 \<Rightarrow> call list \<Rightarrow> error option \<times> call list" where
  "WriteRegS16LE h v reg val tr =
     (let w = drop_bit 8 (val * 0xFF00) + push_bit 8 val
      in WriteRegS16BE h v reg w tr)"

section \<open>Reading the wire\<close>

text \<open>
  The high and the low byte of a 16-bit value, as numbers: the quotient and the
  remainder by 256. The claims about byte order are stated with these two, not with
  the shifts and masks of the code.
\<close>

definition high_byte :: "uint16 \<Rightarrow> byte" where
  "high_byte x = of_nat (unat x div 256)"

definition low_byte :: "uint16 \<Rightarrow> byte" where
  "low_byte x = of_nat (unat x mod 256)"

text \<open>
  What the specification asks of an operation that selects a register and then reads
  \<open>k\<close> bytes, given the history \<open>tr\<close> before the call, the error \<open>err\<close> it returns
  and the history \<open>tr'\<close> after it: a failed write is the only call and its error is
  returned; otherwise the read follows, it is the last call, and its error (or none)
  is returned.
\<close>

definition read_op_reports ::
  "host \<Rightarrow> I2C \<Rightarrow> byte \<Rightarrow> nat \<Rightarrow> call list \<Rightarrow> error option \<Rightarrow> call list \<Rightarrow> bool" where
  "read_op_reports h v reg k tr err tr' =
     (case snd (write_reply h tr (rc v) [reg]) of
        Some e \<Rightarrow> err = Some e \<and> tr' = tr @ [SysWrite (rc v) [reg]]
      | None \<Rightarrow>
          err = snd (read_reply h (tr @ [SysWrite (rc v) [reg]]) (rc v) k) \<and>
          tr' = tr @ [SysWrite (rc v) [reg], SysRead (rc v) k])"

text \<open>
  The same for an operation that writes a register: the history grows by one write to
  the descriptor, whose payload starts with the register address, and the error of
  that write (or none) is returned.
\<close>

definition write_op_reports ::
  "host \<Rightarrow> I2C \<Rightarrow> byte \<Rightarrow> call list \<Rightarrow> error option \<Rightarrow> call list \<Rightarrow> bool" where
  "write_op_reports h v reg tr err tr' =
     (case drop (length tr) tr' of
        [SysWrite fd (r # payload)] \<Rightarrow>
          fd = rc v \<and> r = reg \<and> take (length tr) tr' = tr \<and>
          err = snd (write_reply h tr fd (r # payload))
      | _ \<Rightarrow> False)"

text \<open>The error a returned \<open>ReadRegBytes\<close> hands to its caller.\<close>

definition error_of :: "(byte list \<times> nat \<times> error option) outcome \<Rightarrow> error option" where
  "error_of r = (case r of Return (buf, c, err) \<Rightarrow> err | Panic \<Rightarrow> None)"

section \<open>Test doubles\<close>

text \<open>
  A host on which every call succeeds and the device supplies the given bytes to each
  read, as many as fit the buffer; and the same host with one kind of call failing.
\<close>

definition test_host :: "byte list \<Rightarrow> host" where
  "test_host supplied =
     \<lparr>open_reply = (\<lambda>tr path. Inr 3),
      ioctl_reply = (\<lambda>tr fd cmd arg. 0),
      write_reply = (\<lambda>tr fd buf. (length buf, None)),
      read_reply = (\<lambda>tr fd n. (take n supplied, None)),
      close_reply = (\<lambda>tr fd. None),
      max_alloc = 281474976710656\<rparr>"

definition write_failing_host :: "error \<Rightarrow> host" where
  "write_failing_host e = (test_host [])\<lparr>write_reply := (\<lambda>tr fd buf. (0, Some e))\<rparr>"

definition read_failing_host :: "error \<Rightarrow> host" where
  "read_failing_host e = (test_host [])\<lparr>read_reply := (\<lambda>tr fd n. ([], Some e))\<rparr>"

definition bind_failing_host :: "nat \<Rightarrow> host" where
  "bind_failing_host errno = (test_host [])\<lparr>ioctl_reply := (\<lambda>tr fd cmd arg. errno)\<rparr>"

section \<open>The calls behind the byte-stream operations\<close>

lemma WriteBytes_eq:
  "WriteBytes h v buf tr = (write_reply h tr (rc v) buf, tr @ [SysWrite (rc v) buf])"
  by (simp add: WriteBytes_def write_i2c_def)

lemma ReadBytes_eq:
  "buf \<noteq> [] \<Longrightarrow>
   ReadBytes h v buf tr =
     (let got = take (length buf) (fst (read_reply h tr (rc v) (length buf)))
      in ((got @ drop (length got) buf, length got, snd (read_reply h tr (rc v) (length buf))),
          tr @ [SysRead (rc v) (length buf)]))"
  by (simp add: ReadBytes_def read_i2c_def Let_def split: prod.splits option.splits)

lemma ReadBytes_empty: "ReadBytes h v [] tr = (([], 0, None), tr)"
  by (simp add: ReadBytes_def read_i2c_def)

lemma ReadRegBytes_write_failed:
  "snd (write_reply h tr (rc v) [reg]) = Some e \<Longrightarrow>
   ReadRegBytes h v reg n tr = (Return ([], 0, Some e), tr @ [SysWrite (rc v) [reg]])"
  by (auto simp add: ReadRegBytes_def WriteBytes_eq split: prod.splits option.splits)

lemma ReadRegBytes_empty:
  "snd (write_reply h tr (rc v) [reg]) = None \<Longrightarrow>
   ReadRegBytes h v reg 0 tr = (Return ([], 0, None), tr @ [SysWrite (rc v) [reg]])"
  by (auto simp add: ReadRegBytes_def WriteBytes_eq ReadBytes_empty make_bytes_def
      split: prod.splits option.splits)

lemma ReadRegBytes_write_ok:
  "snd (write_reply h tr (rc v) [reg]) = None \<Longrightarrow> 0 < n \<Longrightarrow> n \<le> int (max_alloc h) \<Longrightarrow>
   ReadRegBytes h v reg n tr =
     (case read_reply h (tr @ [SysWrite (rc v) [reg]]) (rc v) (nat n) of
        (supplied, Some e) \<Rightarrow> Return ([], 0, Some e)
      | (supplied, None) \<Rightarrow>
          Return (take (nat n) supplied @ replicate (nat n - length supplied) 0,
                  min (nat n) (length supplied), None),
      tr @ [SysWrite (rc v) [reg], SysRead (rc v) (nat n)])"
  by (auto simp add: ReadRegBytes_def WriteBytes_eq ReadBytes_eq make_bytes_def Let_def min.commute
      split: prod.splits option.splits)

section \<open>Error reporting of each register operation\<close>

lemma ReadRegU8_reports:
  "read_op_reports h v reg 1 tr (snd (fst (ReadRegU8 h v reg tr))) (snd (ReadRegU8 h v reg tr))"
  by (simp add: read_op_reports_def ReadRegU8_def WriteBytes_eq ReadBytes_eq Let_def
      split: prod.splits option.splits)

lemma ReadRegU16BE_reports:
  "read_op_reports h v reg 2 tr (snd (fst (ReadRegU16BE h v reg tr))) (snd (ReadRegU16BE h v reg tr))"
  by (simp add: read_op_reports_def ReadRegU16BE_def WriteBytes_eq ReadBytes_eq Let_def
      split: prod.splits option.splits)

lemma ReadRegU16LE_reports:
  "read_op_reports h v reg 2 tr (snd (fst (ReadRegU16LE h v reg tr))) (snd (ReadRegU16LE h v reg tr))"
  using ReadRegU16BE_reports [of h v reg tr]
  by (auto simp add: ReadRegU16LE_def split: prod.splits option.splits)

lemma ReadRegS16BE_reports:
  "read_op_reports h v reg 2 tr (snd (fst (ReadRegS16BE h v reg tr))) (snd (ReadRegS16BE h v reg tr))"
  by (simp add: read_op_reports_def ReadRegS16BE_def WriteBytes_eq ReadBytes_eq Let_def
      split: prod.splits option.splits)

lemma ReadRegS16LE_reports:
  "read_op_reports h v reg 2 tr (snd (fst (ReadRegS16LE h v reg tr))) (snd (ReadRegS16LE h v reg tr))"
  using ReadRegS16BE_reports [of h v reg tr]
  by (auto simp add: ReadRegS16LE_def split: prod.splits option.splits)

lemma WriteRegU8_reports:
  "write_op_reports h v reg tr (fst (WriteRegU8 h v reg val tr)) (snd (WriteRegU8 h v reg val tr))"
  by (simp add: write_op_reports_def WriteRegU8_def WriteBytes_eq
      split: prod.splits option.splits)

lemma WriteRegU16BE_reports:
  "write_op_reports h v reg tr (fst (WriteRegU16BE h v reg val tr)) (snd (WriteRegU16BE h v reg val tr))"
  by (simp add: write_op_reports_def WriteRegU16BE_def WriteBytes_eq Let_def
      split: prod.splits option.splits)

lemma WriteRegS16BE_reports:
  "write_op_reports h v reg tr (fst (WriteRegS16BE h v reg val tr)) (snd (WriteRegS16BE h v reg val tr))"
  by (simp add: write_op_reports_def WriteRegS16BE_def WriteBytes_eq Let_def
      split: prod.splits option.splits)

lemma WriteRegU16LE_reports:
  "write_op_reports h v reg tr (fst (WriteRegU16LE h v reg val tr)) (snd (WriteRegU16LE h v reg val tr))"
  by (simp add: WriteRegU16LE_def Let_def WriteRegU16BE_reports)

lemma WriteRegS16LE_reports:
  "write_op_reports h v reg tr (fst (WriteRegS16LE h v reg val tr)) (snd (WriteRegS16LE h v reg val tr))"
  by (simp add: WriteRegS16LE_def Let_def WriteRegS16BE_reports)

lemma ReadRegBytes_reports:
  assumes "snd (write_reply h tr (rc v) [reg]) \<noteq> None \<or> (0 < n \<and> n \<le> int (max_alloc h))"
  shows "fst (ReadRegBytes h v reg n tr) \<noteq> Panic"
    and "read_op_reports h v reg (nat n) tr (error_of (fst (ReadRegBytes h v reg n tr)))
           (snd (ReadRegBytes h v reg n tr))"
proof -
  show "fst (ReadRegBytes h v reg n tr) \<noteq> Panic"
  proof (cases "snd (write_reply h tr (rc v) [reg])")
    case None
    with assms show ?thesis
      by (simp add: ReadRegBytes_write_ok split: prod.splits option.splits)
  next
    case (Some e)
    then show ?thesis
      by (simp add: ReadRegBytes_write_failed)
  qed
  show "read_op_reports h v reg (nat n) tr (error_of (fst (ReadRegBytes h v reg n tr)))
           (snd (ReadRegBytes h v reg n tr))"
  proof (cases "snd (write_reply h tr (rc v) [reg])")
    case None
    with assms show ?thesis
      by (simp add: ReadRegBytes_write_ok read_op_reports_def error_of_def
          split: prod.splits option.splits)
  next
    case (Some e)
    then show ?thesis
      by (simp add: ReadRegBytes_write_failed read_op_reports_def error_of_def)
  qed
qed

section \<open>Bits of the two bytes of a word\<close>

lemma bit_high_byte: "bit (high_byte x) n = (n < 8 \<and> bit x (n + 8))"
proof -
  have "unat x div 256 = drop_bit 8 (unat x)"
    by (simp add: drop_bit_eq_div)
  then show ?thesis
    unfolding high_byte_def
    by (auto simp add: bit_simps add.commute dest: bit_imp_le_length)
qed

lemma bit_low_byte: "bit (low_byte x) n = (n < 8 \<and> bit x n)"
proof -
  have "unat x mod 256 = take_bit 8 (unat x)"
    by (simp add: take_bit_eq_mod)
  then show ?thesis
    unfolding low_byte_def
    by (auto simp add: bit_simps dest: bit_imp_le_length)
qed

lemma mask_numerals: "(0xFF :: 16 word) = mask 8" "(0xFF00 :: 16 word) = push_bit 8 (mask 8)"
  by (simp_all add: mask_eq_exp_minus_1 push_bit_eq_mult)

lemma high_byte_code: "ucast (drop_bit 8 (x AND 0xFF00)) = high_byte x"
  unfolding mask_numerals
  by (rule bit_word_eqI)
    (auto simp add: bit_simps bit_high_byte add.commute dest: bit_imp_le_length)

lemma low_byte_code: "ucast (x AND 0xFF) = low_byte x"
  unfolding mask_numerals
  by (rule bit_word_eqI) (auto simp add: bit_simps bit_low_byte dest: bit_imp_le_length)

lemma low_byte_ucast: "low_byte x = ucast x"
  by (rule bit_word_eqI) (auto simp add: bit_simps bit_low_byte)

text \<open>The word the big-endian readers build from the two bytes of the buffer.\<close>

lemma be_plus_eq_or:
  "push_bit 8 (ucast (b0 :: byte)) + (ucast (b1 :: byte) :: 16 word)
     = push_bit 8 (ucast b0) OR ucast b1"
  by (rule disjunctive_add) (auto simp add: bit_simps dest: bit_imp_le_length)

lemma bit_be:
  "bit (push_bit 8 (ucast (b0 :: byte)) OR (ucast (b1 :: byte) :: 16 word)) n
     = (if n < 8 then bit b1 n else n < 16 \<and> bit b0 (n - 8))"
  by (auto simp add: bit_simps dest: bit_imp_le_length)

lemma high_byte_be: "high_byte (push_bit 8 (ucast (b0 :: byte)) OR ucast (b1 :: byte)) = b0"
  by (rule bit_word_eqI) (auto simp add: bit_high_byte bit_be)

lemma low_byte_be: "low_byte (push_bit 8 (ucast (b0 :: byte)) OR ucast (b1 :: byte)) = b1"
  by (rule bit_word_eqI) (auto simp add: bit_low_byte bit_be dest: bit_imp_le_length)

section \<open>Values of the big-endian word\<close>

lemma uint_be:
  "uint (push_bit 8 (ucast (b0 :: byte)) OR (ucast (b1 :: byte) :: 16 word))
     = 256 * uint b0 + uint b1"
proof -
  have b0: "0 \<le> uint b0" "uint b0 < 256" and b1: "0 \<le> uint b1" "uint b1 < 256"
    using uint_lt2p [of b0] uint_lt2p [of b1] by simp_all
  have u0: "uint (ucast b0 :: 16 word) = uint b0" and u1: "uint (ucast b1 :: 16 word) = uint b1"
    by (simp_all add: uint_up_ucast is_up)
  have "uint (push_bit 8 (ucast b0) + (ucast b1 :: 16 word))
          = (256 * uint b0 + uint b1) mod 65536"
    by (simp add: uint_word_ariths push_bit_eq_mult u0 u1 mod_simps mult.commute)
  also have "\<dots> = 256 * uint b0 + uint b1"
    using b0 b1 by simp
  finally show ?thesis
    by (simp add: be_plus_eq_or)
qed

lemma sint_be:
  "sint (push_bit 8 (ucast (b0 :: byte)) OR (ucast (b1 :: byte) :: 16 word)) =
     (if uint b0 < 128 then 256 * uint b0 + uint b1 else 256 * uint b0 + uint b1 - 65536)"
proof -
  have b0: "0 \<le> uint b0" "uint b0 < 256" and b1: "0 \<le> uint b1" "uint b1 < 256"
    using uint_lt2p [of b0] uint_lt2p [of b1] by simp_all
  let ?w = "push_bit 8 (ucast b0) OR (ucast b1 :: 16 word)"
  let ?u = "256 * uint b0 + uint b1"
  have "sint ?w = (uint ?w + 32768) mod 65536 - 32768"
    by (simp add: sint_uint signed_take_bit_eq_take_bit_shift take_bit_eq_mod)
  then have s: "sint ?w = (?u + 32768) mod 65536 - 32768"
    by (simp only: uint_be)
  show ?thesis
  proof (cases "uint b0 < 128")
    case True
    with b0 b1 have "(?u + 32768) mod 65536 = ?u + 32768"
      by simp
    with s True show ?thesis by simp
  next
    case False
    have "(?u + 32768) mod 65536 = (?u + 32768 - 65536) mod 65536"
      by (simp only: minus_mod_self2)
    also have "\<dots> = ?u + 32768 - 65536"
    proof (rule mod_pos_pos_trivial)
      show "0 \<le> ?u + 32768 - 65536"
        using False b0 b1 by linarith
      show "?u + 32768 - 65536 < 65536"
        using False b0 b1 by linarith
    qed
    finally have "(?u + 32768) mod 65536 = ?u + 32768 - 65536" .
    with s False show ?thesis by simp
  qed
qed

section \<open>The byte exchange of the little-endian readers\<close>

lemma bit_exchange_bytes_u16:
  "bit (exchange_bytes_u16 w) n = (if n < 8 then bit w (n + 8) else n < 16 \<and> bit w (n - 8))"
proof -
  have eq: "exchange_bytes_u16 w = push_bit 8 (w AND mask 8) OR drop_bit 8 w"
    unfolding exchange_bytes_u16_def mask_numerals
    by (rule disjunctive_add) (auto simp add: bit_simps dest: bit_imp_le_length)
  show ?thesis
    unfolding eq by (auto simp add: bit_simps add.commute dest: bit_imp_le_length)
qed

lemma exchange_bytes_u16_be:
  "exchange_bytes_u16 (push_bit 8 (ucast (b0 :: byte)) OR ucast (b1 :: byte))
     = push_bit 8 (ucast b1) OR ucast b0"
  by (rule bit_word_eqI) (auto simp add: bit_exchange_bytes_u16 bit_be)

lemma signed_drop_bit_nonnegative:
  "\<not> bit w 15 \<Longrightarrow> signed_drop_bit 8 (w :: 16 word) = drop_bit 8 w"
  apply (intro bit_word_eqI)
  apply (simp add: bit_simps)
  apply (auto dest: bit_imp_le_length)
  done

lemma signed_drop_bit_negative:
  assumes neg: "bit w 15"
  shows "signed_drop_bit 8 (w :: 16 word) = drop_bit 8 w + 0xFF00"
proof -
  have "drop_bit 8 w + push_bit 8 (mask 8) = drop_bit 8 w OR push_bit 8 (mask 8)"
    by (rule disjunctive_add) (auto simp add: bit_simps dest: bit_imp_le_length)
  moreover have "signed_drop_bit 8 w = drop_bit 8 w OR push_bit 8 (mask 8)"
    using neg
    apply (intro bit_word_eqI)
    apply (simp add: bit_simps)
    apply (auto dest: bit_imp_le_length)
    done
  ultimately show ?thesis
    by (simp add: mask_numerals)
qed

lemma exchange_bytes_s16_eq:
  "exchange_bytes_s16 w =
     (if bit w 15 then exchange_bytes_u16 w - 0x100 else exchange_bytes_u16 w)"
  by (simp add: exchange_bytes_s16_def exchange_bytes_u16_def
      signed_drop_bit_negative signed_drop_bit_nonnegative)

section \<open>The word the little-endian writers pass on\<close>

lemma low_byte_mult: "low_byte (x * y) = low_byte x * low_byte y"
proof -
  have "(256 :: int) dvd 65536" by simp
  then have m: "uint x * uint y mod 65536 mod 256 = uint x * uint y mod 256"
    by (rule mod_mod_cancel)
  have "(word_of_int (uint (x * y)) :: byte) = word_of_int (uint x * uint y)"
    by (subst word_of_int_eq_iff) (simp add: take_bit_eq_mod uint_word_ariths m)
  then show ?thesis
    unfolding low_byte_ucast ucast_eq wi_hom_mult .
qed

lemma low_byte_255: "low_byte 0xFF = - 1"
  by (simp add: low_byte_def)

lemma le_word_or:
  "drop_bit 8 (x * 0xFF00) + push_bit 8 x
     = (drop_bit 8 (push_bit 8 (x * 0xFF)) OR push_bit 8 x :: 16 word)"
proof -
  have "x * 0xFF00 = push_bit 8 (x * 0xFF)"
    by (simp add: push_bit_eq_mult)
  moreover have "drop_bit 8 (push_bit 8 (x * 0xFF)) + push_bit 8 x
      = drop_bit 8 (push_bit 8 (x * 0xFF)) OR push_bit 8 x"
    by (rule disjunctive_add) (auto simp add: bit_simps dest: bit_imp_le_length)
  ultimately show ?thesis by simp
qed

lemma le_word_high: "high_byte (drop_bit 8 (x * 0xFF00) + push_bit 8 x) = low_byte x"
  unfolding le_word_or
  by (rule bit_word_eqI)
    (auto simp add: bit_simps bit_high_byte bit_low_byte dest: bit_imp_le_length)

lemma le_word_low: "low_byte (drop_bit 8 (x * 0xFF00) + push_bit 8 x) = - low_byte x"
proof -
  have "low_byte (drop_bit 8 (x * 0xFF00) + push_bit 8 x) = low_byte (x * 0xFF)"
    unfolding le_word_or
    by (rule bit_word_eqI) (auto simp add: bit_simps bit_low_byte dest: bit_imp_le_length)
  then show ?thesis
    by (simp add: low_byte_mult low_byte_255)
qed

lemma low_byte_drop_bit: "low_byte (drop_bit 8 x) = high_byte x"
  by (rule bit_word_eqI)
    (auto simp add: bit_simps bit_high_byte bit_low_byte add.commute dest: bit_imp_le_length)

lemma WriteRegU16BE_calls:
  "snd (WriteRegU16BE h v reg val tr)
     = tr @ [SysWrite (rc v) [reg, high_byte val, low_byte val]]"
  by (simp add: WriteRegU16BE_def WriteBytes_eq Let_def high_byte_code low_byte_code
      low_byte_drop_bit split: prod.splits option.splits)

lemma WriteRegS16BE_calls:
  "snd (WriteRegS16BE h v reg val tr)
     = tr @ [SysWrite (rc v) [reg, high_byte val, low_byte val]]"
  by (simp add: WriteRegS16BE_def WriteBytes_eq Let_def high_byte_code low_byte_code
      low_byte_drop_bit split: prod.splits option.splits)

section \<open>What the big-endian readers return\<close>

lemma ReadRegU16BE_supplied:
  assumes "snd (write_reply h tr (rc v) [reg]) = None"
    and "read_reply h (tr @ [SysWrite (rc v) [reg]]) (rc v) 2 = ([b0, b1], None)"
  shows "fst (ReadRegU16BE h v reg tr) = (push_bit 8 (ucast b0) OR ucast b1, None)"
  using assms
  by (auto simp add: ReadRegU16BE_def WriteBytes_eq ReadBytes_eq be_plus_eq_or
      split: prod.splits option.splits)

lemma ReadRegS16BE_supplied:
  assumes "snd (write_reply h tr (rc v) [reg]) = None"
    and "read_reply h (tr @ [SysWrite (rc v) [reg]]) (rc v) 2 = ([b0, b1], None)"
  shows "fst (ReadRegS16BE h v reg tr) = (push_bit 8 (ucast b0) OR ucast b1, None)"
  using assms
  by (auto simp add: ReadRegS16BE_def WriteBytes_eq ReadBytes_eq be_plus_eq_or
      split: prod.splits option.splits)

section \<open>The claims\<close>

text \<open>
  C1. The claim: for every register address and every 16-bit value, \<open>WriteRegU16LE\<close>
  and \<open>WriteRegS16LE\<close> write exactly the three bytes register, low byte, high byte.
  The code does not: it multiplies by \<open>0xFF00\<close> where a byte exchange would mask, so
  the word it hands to the big-endian writer has the low byte of the value on top and
  the negated low byte below. Both helpers write register, low byte, minus the low
  byte (modulo 256); for the value \<open>0x1234\<close> at register \<open>0x20\<close> that is
  \<open>[0x20, 0x34, 0xCC]\<close>, where the claim has \<open>[0x20, 0x34, 0x12]\<close>.
\<close>

theorem WriteRegU16LE_and_WriteRegS16LE_wire_bytes:
  "snd (WriteRegU16LE h v reg val tr)
     = tr @ [SysWrite (rc v) [reg, low_byte val, - low_byte val]] \<and>
   snd (WriteRegS16LE h v reg val tr)
     = tr @ [SysWrite (rc v) [reg, low_byte val, - low_byte val]] \<and>
   snd (WriteRegU16LE h v 0x20 0x1234 tr) = tr @ [SysWrite (rc v) [0x20, 0x34, 0xCC]] \<and>
   snd (WriteRegS16LE h v 0x20 0x1234 tr) = tr @ [SysWrite (rc v) [0x20, 0x34, 0xCC]] \<and>
   [0x20, low_byte 0x1234, high_byte 0x1234] = [0x20, 0x34, 0x12 :: byte]"
proof -
  have u: "snd (WriteRegU16LE h v r x tr)
             = tr @ [SysWrite (rc v) [r, low_byte x, - low_byte x]]" for r x
    by (simp only: WriteRegU16LE_def Let_def WriteRegU16BE_calls le_word_high le_word_low)
  have s: "snd (WriteRegS16LE h v r x tr)
             = tr @ [SysWrite (rc v) [r, low_byte x, - low_byte x]]" for r x
    by (simp only: WriteRegS16LE_def Let_def WriteRegS16BE_calls le_word_high le_word_low)
  have b: "high_byte 0x1234 = 0x12" "low_byte 0x1234 = 0x34" "- low_byte 0x1234 = 0xCC"
    by (simp_all add: high_byte_def low_byte_def)
  from u [of reg val] s [of reg val] u [of "0x20" "0x1234"] s [of "0x20" "0x1234"] b
  show ?thesis
    by simp
qed

text \<open>
  C2. The claim: when the device supplies the bytes \<open>b0, b1\<close>, \<open>ReadRegS16LE\<close>
  returns the signed value with high byte \<open>b1\<close> and low byte \<open>b0\<close>. The code
  exchanges the bytes with an arithmetic right shift, which fills the upper byte with
  the sign: when the big-endian value is negative the result is the exchanged word
  minus \<open>0x100\<close>. On the wire bytes \<open>[0xFF, 0x00]\<close> the big-endian reader returns
  \<open>0xFF00\<close> and \<open>ReadRegS16LE\<close> returns \<open>0xFFFF\<close>, that is -1 with high byte
  \<open>0xFF\<close>, where the claim has \<open>0x00FF\<close>.
\<close>

theorem ReadRegS16LE_sign_extension:
  "fst (ReadRegS16BE (test_host [0xFF, 0x00]) \<lparr>rc = 3\<rparr> 0x10 []) = (0xFF00, None) \<and>
   fst (ReadRegS16LE (test_host [0xFF, 0x00]) \<lparr>rc = 3\<rparr> 0x10 []) = (0xFFFF, None) \<and>
   high_byte 0xFFFF = 0xFF \<and> low_byte 0xFFFF = 0xFF \<and> sint (0xFFFF :: int16) = - 1 \<and>
   exchange_bytes_s16 w
     = (if bit w 15 then exchange_bytes_u16 w - 0x100 else exchange_bytes_u16 w)"
proof -
  have "fst (ReadRegS16BE (test_host [0xFF, 0x00]) \<lparr>rc = 3\<rparr> 0x10 []) = (0xFF00, None)"
    by (simp add: ReadRegS16BE_def WriteBytes_eq ReadBytes_eq test_host_def)
  moreover from this
  have "fst (ReadRegS16LE (test_host [0xFF, 0x00]) \<lparr>rc = 3\<rparr> 0x10 []) = (0xFFFF, None)"
    by (cases "ReadRegS16BE (test_host [0xFF, 0x00]) \<lparr>rc = 3\<rparr> 0x10 []")
      (auto simp add: ReadRegS16LE_def exchange_bytes_s16_def)
  moreover have "high_byte 0xFFFF = 0xFF" "low_byte 0xFFFF = 0xFF"
    by (simp_all add: high_byte_def low_byte_def)
  moreover have "sint (0xFFFF :: int16) = - 1"
    by simp
  ultimately show ?thesis
    using exchange_bytes_s16_eq [of w] by simp
qed

text \<open>
  C3, amended. For every register address and every length \<open>n\<close> from 1 up to the
  allocation limit, \<open>ReadRegBytes\<close> issues exactly one write of the single byte
  \<open>reg\<close>; when that write succeeds it is followed by exactly one read request for
  \<open>n\<close> bytes and by nothing else, and when it fails no read is issued. When both
  steps succeed the buffer is returned, holding the bytes read in front and zeros
  behind, together with the count read. For the length 0 the write is the only call:
  no read is issued, and after a successful write the empty buffer and the count 0 are
  returned.
\<close>

theorem ReadRegBytes_bus_traffic:
  assumes "0 \<le> n" and "n \<le> int (max_alloc h)"
  shows "snd (ReadRegBytes h v reg n tr)
           = (if snd (write_reply h tr (rc v) [reg]) = None \<and> 0 < n
              then tr @ [SysWrite (rc v) [reg], SysRead (rc v) (nat n)]
              else tr @ [SysWrite (rc v) [reg]]) \<and>
         (snd (write_reply h tr (rc v) [reg]) = None \<and> 0 < n \<and>
          read_reply h (tr @ [SysWrite (rc v) [reg]]) (rc v) (nat n) = (supplied, None) \<longrightarrow>
            fst (ReadRegBytes h v reg n tr)
              = Return (take (nat n) supplied @ replicate (nat n - length supplied) 0,
                        min (nat n) (length supplied), None)) \<and>
         (snd (write_reply h tr (rc v) [reg]) = None \<and> n = 0 \<longrightarrow>
            fst (ReadRegBytes h v reg n tr) = Return ([], 0, None))"
proof (cases "snd (write_reply h tr (rc v) [reg])")
  case None
  show ?thesis
  proof (cases "n = 0")
    case True
    with None show ?thesis
      by (simp add: ReadRegBytes_empty)
  next
    case False
    with assms have "0 < n" by simp
    with None assms show ?thesis
      by (simp add: ReadRegBytes_write_ok split: prod.splits option.splits)
  qed
next
  case (Some e)
  then show ?thesis
    by (simp add: ReadRegBytes_write_failed)
qed

text \<open>
  On a host that supplies three bytes, a request for two returns the first two, after
  one write and one read; a request for none returns the empty buffer after the write
  alone.
\<close>

theorem ReadRegBytes_bus_traffic_witness:
  "ReadRegBytes (test_host [0xDE, 0xAD, 0xBE]) \<lparr>rc = 3\<rparr> 0x10 2 []
     = (Return ([0xDE, 0xAD], 2, None), [SysWrite 3 [0x10], SysRead 3 2]) \<and>
   ReadRegBytes (test_host [0xDE, 0xAD, 0xBE]) \<lparr>rc = 3\<rparr> 0x10 0 []
     = (Return ([], 0, None), [SysWrite 3 [0x10]])"
  using ReadRegBytes_bus_traffic
    [of 2 "test_host [0xDE, 0xAD, 0xBE]" "\<lparr>rc = 3\<rparr>" "0x10" "[]" "[0xDE, 0xAD]"]
    ReadRegBytes_bus_traffic
    [of 0 "test_host [0xDE, 0xAD, 0xBE]" "\<lparr>rc = 3\<rparr>" "0x10" "[]" "[]"]
  by (simp add: test_host_def prod_eq_iff)

text \<open>
  As first stated, for every \<open>n\<close> and with the read issued in every case, the
  property fails: after a write that fails with errno 5 the call returns that error and
  no read was requested; for the length 0 the call returns after the write without a
  read; and for the length -1, or a length one past the allocation limit of the host,
  the call panics after the write, again without a read.
\<close>

theorem ReadRegBytes_bus_traffic_counterexample:
  "ReadRegBytes (write_failing_host (Errno 5)) \<lparr>rc = 3\<rparr> 0x10 2 []
     = (Return ([], 0, Some (Errno 5)), [SysWrite 3 [0x10]]) \<and>
   ReadRegBytes (test_host [0xDE, 0xAD]) \<lparr>rc = 3\<rparr> 0x10 0 []
     = (Return ([], 0, None), [SysWrite 3 [0x10]]) \<and>
   ReadRegBytes (test_host [0xDE, 0xAD]) \<lparr>rc = 3\<rparr> 0x10 (- 1) []
     = (Panic, [SysWrite 3 [0x10]]) \<and>
   ReadRegBytes (test_host [0xDE, 0xAD]) \<lparr>rc = 3\<rparr> 0x10 281474976710657 []
     = (Panic, [SysWrite 3 [0x10]]) \<and>
   [SysWrite 3 [0x10]] \<noteq> [SysWrite 3 [0x10], SysRead 3 2] \<and>
   [SysWrite 3 [0x10]] \<noteq> [SysWrite 3 [0x10], SysRead 3 0]"
  by (simp add: ReadRegBytes_def WriteBytes_eq ReadBytes_empty make_bytes_def
      write_failing_host_def test_host_def)

text \<open>
  C4. When the register write succeeds and the device supplies the two bytes
  \<open>b0, b1\<close>, \<open>ReadRegU16BE\<close> returns \<open>b0<<8 | b1\<close>, the number
  \<open>256 * b0 + b1\<close>, and \<open>ReadRegU16LE\<close> returns the word with the two bytes
  exchanged. For the wire bytes \<open>[0x12, 0x34]\<close> these are \<open>0x1234\<close> and
  \<open>0x3412\<close>.
\<close>

theorem ReadRegU16BE_and_ReadRegU16LE_values:
  assumes "snd (write_reply h tr (rc v) [reg]) = None"
    and "read_reply h (tr @ [SysWrite (rc v) [reg]]) (rc v) 2 = ([b0, b1], None)"
  shows "fst (ReadRegU16BE h v reg tr) = (push_bit 8 (ucast b0) OR ucast b1, None) \<and>
         uint (fst (fst (ReadRegU16BE h v reg tr))) = 256 * uint b0 + uint b1 \<and>
         fst (ReadRegU16LE h v reg tr) = (push_bit 8 (ucast b1) OR ucast b0, None) \<and>
         (b0 = 0x12 \<and> b1 = 0x34 \<longrightarrow>
            fst (ReadRegU16BE h v reg tr) = (0x1234, None) \<and>
            fst (ReadRegU16LE h v reg tr) = (0x3412, None))"
proof -
  note be = ReadRegU16BE_supplied [OF assms]
  have le: "fst (ReadRegU16LE h v reg tr) = (push_bit 8 (ucast b1) OR ucast b0, None)"
    using be
    by (cases "ReadRegU16BE h v reg tr") (auto simp add: ReadRegU16LE_def exchange_bytes_u16_be)
  have "b0 = 0x12 \<and> b1 = 0x34 \<longrightarrow>
          fst (ReadRegU16BE h v reg tr) = (0x1234, None) \<and>
          fst (ReadRegU16LE h v reg tr) = (0x3412, None)"
    using be le by simp
  with be le show ?thesis
    by (simp add: uint_be)
qed

text \<open>
  The same on a host whose device supplies \<open>[0x12, 0x34]\<close>.
\<close>

theorem ReadRegU16BE_and_ReadRegU16LE_values_witness:
  "fst (ReadRegU16BE (test_host [0x12, 0x34]) \<lparr>rc = 3\<rparr> 0x10 []) = (0x1234, None) \<and>
   fst (ReadRegU16LE (test_host [0x12, 0x34]) \<lparr>rc = 3\<rparr> 0x10 []) = (0x3412, None)"
  using ReadRegU16BE_and_ReadRegU16LE_values
    [of "test_host [0x12, 0x34]" "[]" "\<lparr>rc = 3\<rparr>" "0x10" "0x12" "0x34"]
  by (simp add: test_host_def)

text \<open>
  C5. When the register write succeeds and the device supplies the two bytes
  \<open>b0, b1\<close>, \<open>ReadRegS16BE\<close> returns the word \<open>b0<<8 | b1\<close> read as two's
  complement: \<open>256 * b0 + b1\<close> when \<open>b0\<close> is below 128, and that number minus
  65536 otherwise. The wire bytes \<open>[0xFF, 0xFF]\<close> give -1 and \<open>[0x00, 0x01]\<close>
  give 1.
\<close>

theorem ReadRegS16BE_value:
  assumes "snd (write_reply h tr (rc v) [reg]) = None"
    and "read_reply h (tr @ [SysWrite (rc v) [reg]]) (rc v) 2 = ([b0, b1], None)"
  shows "fst (ReadRegS16BE h v reg tr) = (push_bit 8 (ucast b0) OR ucast b1, None) \<and>
         sint (fst (fst (ReadRegS16BE h v reg tr)))
           = (if uint b0 < 128 then 256 * uint b0 + uint b1
              else 256 * uint b0 + uint b1 - 65536) \<and>
         (b0 = 0xFF \<and> b1 = 0xFF \<longrightarrow> sint (fst (fst (ReadRegS16BE h v reg tr))) = - 1) \<and>
         (b0 = 0x00 \<and> b1 = 0x01 \<longrightarrow> sint (fst (fst (ReadRegS16BE h v reg tr))) = 1)"
proof -
  note be = ReadRegS16BE_supplied [OF assms]
  have s: "sint (fst (fst (ReadRegS16BE h v reg tr)))
           = (if uint b0 < 128 then 256 * uint b0 + uint b1
              else 256 * uint b0 + uint b1 - 65536)"
    using be by (simp only: fst_conv sint_be)
  have "b0 = 0xFF \<and> b1 = 0xFF \<longrightarrow> sint (fst (fst (ReadRegS16BE h v reg tr))) = - 1"
    using s by simp
  moreover have "b0 = 0x00 \<and> b1 = 0x01 \<longrightarrow> sint (fst (fst (ReadRegS16BE h v reg tr))) = 1"
    using s by simp
  ultimately show ?thesis
    using be s by simp
qed

text \<open>
  The two examples, on hosts whose device supplies these bytes.
\<close>

theorem ReadRegS16BE_value_witness:
  "sint (fst (fst (ReadRegS16BE (test_host [0xFF, 0xFF]) \<lparr>rc = 3\<rparr> 0x10 []))) = - 1 \<and>
   sint (fst (fst (ReadRegS16BE (test_host [0x00, 0x01]) \<lparr>rc = 3\<rparr> 0x10 []))) = 1"
  using ReadRegS16BE_value [of "test_host [0xFF, 0xFF]" "[]" "\<lparr>rc = 3\<rparr>" "0x10" "0xFF" "0xFF"]
    ReadRegS16BE_value [of "test_host [0x00, 0x01]" "[]" "\<lparr>rc = 3\<rparr>" "0x10" "0x00" "0x01"]
  by (simp add: test_host_def)

text \<open>
  C6. For every register address and value, \<open>WriteRegU8\<close> issues exactly one write,
  of the two bytes register and value, and \<open>WriteRegU16BE\<close> issues exactly one write,
  of the three bytes register, high byte, low byte. \<open>WriteRegU8(0x10, 0xAB)\<close> writes
  \<open>[0x10, 0xAB]\<close> and \<open>WriteRegU16BE(0x20, 0x1234)\<close> writes
  \<open>[0x20, 0x12, 0x34]\<close>.
\<close>

theorem WriteRegU8_and_WriteRegU16BE_wire_bytes:
  "snd (WriteRegU8 h v reg val8 tr) = tr @ [SysWrite (rc v) [reg, val8]] \<and>
   snd (WriteRegU16BE h v reg val16 tr)
     = tr @ [SysWrite (rc v) [reg, high_byte val16, low_byte val16]] \<and>
   snd (WriteRegU8 h v 0x10 0xAB tr) = tr @ [SysWrite (rc v) [0x10, 0xAB]] \<and>
   snd (WriteRegU16BE h v 0x20 0x1234 tr) = tr @ [SysWrite (rc v) [0x20, 0x12, 0x34]]"
proof -
  have u8: "snd (WriteRegU8 h v r x tr) = tr @ [SysWrite (rc v) [r, x]]" for r x
    by (simp add: WriteRegU8_def WriteBytes_eq split: prod.splits option.splits)
  have "high_byte 0x1234 = 0x12" "low_byte 0x1234 = 0x34"
    by (simp_all add: high_byte_def low_byte_def)
  with WriteRegU16BE_calls [of h v "0x20" "0x1234" tr]
  have "snd (WriteRegU16BE h v 0x20 0x1234 tr) = tr @ [SysWrite (rc v) [0x20, 0x12, 0x34]]"
    by simp
  with u8 WriteRegU16BE_calls [of h v reg val16 tr] show ?thesis
    by simp
qed

text \<open>
  C7. Exchanging the bytes of a 16-bit unsigned value twice, with the expression
  \<open>ReadRegU16LE\<close> uses, gives the value back.
\<close>

theorem exchange_bytes_u16_involution:
  "exchange_bytes_u16 (exchange_bytes_u16 v) = v"
  by (rule bit_word_eqI) (auto simp add: bit_exchange_bytes_u16)

text \<open>
  C8. Every register operation returns the error of the step that failed and makes no
  further call: a read operation whose register write fails returns that error after
  the write alone; when the write succeeds it issues the read once and returns the
  error of the read, or none when the read succeeded; a write operation issues its one
  write and returns the error of that write, or none. For \<open>ReadRegBytes\<close> this holds
  whenever the write fails or the length is positive and can be allocated, and it then
  does not panic; for the length 0 there is no read step, and after a successful write
  it returns no error, the write being its only call.
\<close>

theorem register_operations_return_step_errors:
  "read_op_reports h v reg 1 tr (snd (fst (ReadRegU8 h v reg tr))) (snd (ReadRegU8 h v reg tr)) \<and>
   read_op_reports h v reg 2 tr
     (snd (fst (ReadRegU16BE h v reg tr))) (snd (ReadRegU16BE h v reg tr)) \<and>
   read_op_reports h v reg 2 tr
     (snd (fst (ReadRegU16LE h v reg tr))) (snd (ReadRegU16LE h v reg tr)) \<and>
   read_op_reports h v reg 2 tr
     (snd (fst (ReadRegS16BE h v reg tr))) (snd (ReadRegS16BE h v reg tr)) \<and>
   read_op_reports h v reg 2 tr
     (snd (fst (ReadRegS16LE h v reg tr))) (snd (ReadRegS16LE h v reg tr)) \<and>
   write_op_reports h v reg tr
     (fst (WriteRegU8 h v reg val8 tr)) (snd (WriteRegU8 h v reg val8 tr)) \<and>
   write_op_reports h v reg tr
     (fst (WriteRegU16BE h v reg val16 tr)) (snd (WriteRegU16BE h v reg val16 tr)) \<and>
   write_op_reports h v reg tr
     (fst (WriteRegU16LE h v reg val16 tr)) (snd (WriteRegU16LE h v reg val16 tr)) \<and>
   write_op_reports h v reg tr
     (fst (WriteRegS16BE h v reg val16 tr)) (snd (WriteRegS16BE h v reg val16 tr)) \<and>
   write_op_reports h v reg tr
     (fst (WriteRegS16LE h v reg val16 tr)) (snd (WriteRegS16LE h v reg val16 tr)) \<and>
   (snd (write_reply h tr (rc v) [reg]) \<noteq> None \<or> (0 < n \<and> n \<le> int (max_alloc h)) \<longrightarrow>
      fst (ReadRegBytes h v reg n tr) \<noteq> Panic \<and>
      read_op_reports h v reg (nat n) tr
        (error_of (fst (ReadRegBytes h v reg n tr))) (snd (ReadRegBytes h v reg n tr))) \<and>
   (snd (write_reply h tr (rc v) [reg]) = None \<longrightarrow>
      ReadRegBytes h v reg 0 tr = (Return ([], 0, None), tr @ [SysWrite (rc v) [reg]]))"
  by (intro conjI impI;
      (rule ReadRegU8_reports ReadRegU16BE_reports ReadRegU16LE_reports
        ReadRegS16BE_reports ReadRegS16LE_reports WriteRegU8_reports WriteRegU16BE_reports
        WriteRegU16LE_reports WriteRegS16BE_reports WriteRegS16LE_reports
       | erule ReadRegBytes_reports ReadRegBytes_empty))

text \<open>
  A read that fails with errno 121 and a write that fails with errno 5 reach the caller
  as they are, with no call after the failed one; on a host where every call succeeds no
  error is returned, and a request for no bytes makes the write only.
\<close>

theorem register_operations_return_step_errors_witness:
  "fst (ReadRegBytes (read_failing_host (Errno 121)) \<lparr>rc = 3\<rparr> 0x10 2 []) \<noteq> Panic \<and>
   error_of (fst (ReadRegBytes (read_failing_host (Errno 121)) \<lparr>rc = 3\<rparr> 0x10 2 []))
     = Some (Errno 121) \<and>
   snd (ReadRegBytes (read_failing_host (Errno 121)) \<lparr>rc = 3\<rparr> 0x10 2 [])
     = [SysWrite 3 [0x10], SysRead 3 2] \<and>
   snd (fst (ReadRegU8 (write_failing_host (Errno 5)) \<lparr>rc = 3\<rparr> 0x10 [])) = Some (Errno 5) \<and>
   snd (ReadRegU8 (write_failing_host (Errno 5)) \<lparr>rc = 3\<rparr> 0x10 []) = [SysWrite 3 [0x10]] \<and>
   snd (fst (ReadRegS16LE (test_host [1, 2]) \<lparr>rc = 3\<rparr> 0x10 [])) = None \<and>
   ReadRegBytes (test_host [1, 2]) \<lparr>rc = 3\<rparr> 0x10 0 []
     = (Return ([], 0, None), [SysWrite 3 [0x10]])"
  using register_operations_return_step_errors
      [of "read_failing_host (Errno 121)" "\<lparr>rc = 3\<rparr>" "0x10" "[]" "0xAB" "0x1234" 2]
    register_operations_return_step_errors
      [of "write_failing_host (Errno 5)" "\<lparr>rc = 3\<rparr>" "0x10" "[]" "0xAB" "0x1234" 2]
    register_operations_return_step_errors
      [of "test_host [1, 2]" "\<lparr>rc = 3\<rparr>" "0x10" "[]" "0xAB" "0x1234" 2]
  by (simp add: read_op_reports_def read_failing_host_def write_failing_host_def test_host_def)

text \<open>
  C9. When the device node opens and the bind request fails, \<open>NewI2C\<close> returns the
  errno of the request and no handle, after exactly the open and the request: it makes
  no close call for the opened descriptor.
\<close>

theorem NewI2C_bind_failure_leaves_descriptor_open:
  assumes "open_reply h tr (''/dev/i2c-'' @ sprintf_d bus) = Inr f"
    and "ioctl_reply h (tr @ [SysOpen (''/dev/i2c-'' @ sprintf_d bus)]) f i2cSlave (unat addr)
           = errno"
    and "errno \<noteq> 0"
  shows "NewI2C h addr bus tr
           = ((None, Some (Errno errno)),
              tr @ [SysOpen (''/dev/i2c-'' @ sprintf_d bus), SysIoctl f i2cSlave (unat addr)]) \<and>
         SysClose f \<notin> set (drop (length tr) (snd (NewI2C h addr bus tr)))"
  using assms
  by (simp add: NewI2C_def ioctl_def Let_def)

text \<open>
  Bus 1, address \<open>0x40\<close>, on a host whose bind request fails with errno 22.
\<close>

theorem NewI2C_bind_failure_leaves_descriptor_open_witness:
  "NewI2C (bind_failing_host 22) 0x40 1 []
     = ((None, Some (Errno 22)), [SysOpen ''/dev/i2c-1'', SysIoctl 3 0x0703 0x40]) \<and>
   SysClose 3 \<notin> set (snd (NewI2C (bind_failing_host 22) 0x40 1 []))"
  using NewI2C_bind_failure_leaves_descriptor_open [of "bind_failing_host 22" "[]" 1 3 "0x40" 22]
  by (simp add: bind_failing_host_def test_host_def sprintf_d_def decimal.simps i2cSlave_def)

text \<open>
  C10. For every negative length, once the write of the register address has
  succeeded, \<open>ReadRegBytes\<close> panics in the allocation of the buffer: it returns
  nothing, and the write is the only call it made.
\<close>

theorem ReadRegBytes_negative_length_panics:
  assumes "n < 0" and "snd (write_reply h tr (rc v) [reg]) = None"
  shows "ReadRegBytes h v reg n tr = (Panic, tr @ [SysWrite (rc v) [reg]])"
  using assms
  by (auto simp add: ReadRegBytes_def WriteBytes_eq make_bytes_def
      split: prod.splits option.splits)

text \<open>
  The length -1 on a host where every call succeeds.
\<close>

theorem ReadRegBytes_negative_length_panics_witness:
  "ReadRegBytes (test_host [0xDE, 0xAD]) \<lparr>rc = 3\<rparr> 0x10 (- 1) [SysOpen ''/dev/i2c-1'']
     = (Panic, [SysOpen ''/dev/i2c-1'', SysWrite 3 [0x10]])"
  using ReadRegBytes_negative_length_panics
    [of "- 1" "test_host [0xDE, 0xAD]" "[SysOpen ''/dev/i2c-1'']" "\<lparr>rc = 3\<rparr>" "0x10"]
  by (simp add: test_host_def)

end
